theory Spec2Isabelle
  imports Main "HOL-Library.Char_ord" "HOL-Library.List_Lexorder"
begin

section \<open>The subscription forwarding plugin of villus\<close>

text \<open>
  The development embeds \<^verbatim>\<open>packages/villus/src/handleSubscriptions.ts\<close>:
  \<^verbatim>\<open>
  export function handleSubscriptions(forwarder: SubscriptionForwarder): ClientPlugin {
    const forward = forwarder;

    return function subscriptionsHandlerPlugin({ operation, useResult }) {
      if (operation.type !== 'subscription') {
        return;
      }

      if (!forward) {
        throw new Error('No subscription forwarder was set.');
      }

      const normalizedQuery = normalizeQuery(operation.query);
      if (!normalizedQuery) {
        throw new Error('A query must be provided.');
      }

      useResult(forward({ ...operation, query: normalizedQuery }) as any, true);
    };
  }
  \<close>
\<close>

subsection \<open>Data\<close>

text \<open>
  An operation's \<^verbatim>\<open>query\<close> is a string or a parsed document
  (\<^verbatim>\<open>string | DocumentNode\<close>); the document type is left open.
\<close>

datatype 'd query = QueryString string | QueryDocument 'd

text \<open>
  The operation object. The handler reads \<^verbatim>\<open>type\<close> and \<^verbatim>\<open>query\<close>; the spread
  \<^verbatim>\<open>{ ...operation, query: normalizedQuery }\<close> copies every own property, so the record is
  used as an extensible scheme: whatever further properties the object carries
  (\<^verbatim>\<open>key\<close>, \<^verbatim>\<open>cachePolicy\<close>, \<^verbatim>\<open>tags\<close>, ...) live in its extension slot. The
  \<^verbatim>\<open>type\<close> property is the JavaScript string that the source compares with
  \<^verbatim>\<open>'subscription'\<close>.
\<close>

record ('d, 'v) ClientPluginOperation =
  query :: "'d query"
  variables :: 'v
  type :: string

text \<open>
  JavaScript objects are passed by reference. Objects live in a store, a reference is an
  address, and allocation takes the next unused address.
\<close>

type_synonym ref = nat

text \<open>Both \<^verbatim>\<open>throw\<close> statements of the source raise a plain \<^verbatim>\<open>Error\<close> with a message.\<close>

datatype error = Error string

text \<open>The completion of a JavaScript call: it returns a value or it throws.\<close>

datatype 'a completion = Normal 'a | Throw error

text \<open>
  The calls the handler makes to its collaborators, in the order it makes them: the
  forwarder, called with a reference to an operation object, and the context's
  \<^verbatim>\<open>useResult(result, terminate)\<close>.
\<close>

datatype 's call = Forward ref | UseResult 's bool

record ('d, 'v, 'm, 's) world =
  objects :: "ref \<Rightarrow> ('d, 'v, 'm) ClientPluginOperation_scheme"
  next_ref :: ref
  calls :: "'s call list"

text \<open>
  The context argument. The handler destructures \<^verbatim>\<open>operation\<close> and \<^verbatim>\<open>useResult\<close>
  only; \<^verbatim>\<open>useResult\<close> is a callback, modelled by the call it records, and the other
  properties of the context live in the extension slot.
\<close>

record ClientPluginContext =
  operation :: ref

subsection \<open>Operations\<close>

text \<open>Object creation: the new object is written at the next unused address.\<close>

definition alloc ::
  "('d, 'v, 'm) ClientPluginOperation_scheme \<Rightarrow> ('d, 'v, 'm, 's) world \<Rightarrow>
   ref \<times> ('d, 'v, 'm, 's) world" where
  "alloc obj w =
     (next_ref w, w\<lparr>objects := (objects w)(next_ref w := obj), next_ref := Suc (next_ref w)\<rparr>)"

definition record_call :: "'s call \<Rightarrow> ('d, 'v, 'm, 's) world \<Rightarrow> ('d, 'v, 'm, 's) world" where
  "record_call c w = w\<lparr>calls := calls w @ [c]\<rparr>"

text \<open>
  The handler. \<^verbatim>\<open>normalizeQuery\<close> is imported from \<^verbatim>\<open>shared/src/utils\<close>, which is
  not among the sources, so it is a parameter: a function from the query to a string or
  \<^verbatim>\<open>null\<close> (\<open>None\<close>). The captured forwarder is \<open>None\<close> when the value given to
  \<^verbatim>\<open>handleSubscriptions\<close> is falsy (\<^verbatim>\<open>undefined\<close>, \<^verbatim>\<open>null\<close>); otherwise it is a
  function from the operation object it is handed to the stream it returns, as its
  declared type says. \<^verbatim>\<open>!normalizedQuery\<close> holds for \<^verbatim>\<open>null\<close> and for the empty
  string.
\<close>

definition subscriptionsHandlerPlugin ::
  "('d query \<Rightarrow> string option) \<Rightarrow>
   (('d, 'v, 'm) ClientPluginOperation_scheme \<Rightarrow> 's) option \<Rightarrow>
   'c ClientPluginContext_scheme \<Rightarrow> ('d, 'v, 'm, 's) world \<Rightarrow>
   unit completion \<times> ('d, 'v, 'm, 's) world" where
  "subscriptionsHandlerPlugin normalizeQuery forward ctx w =
     (let op = objects w (operation ctx) in
      if type op \<noteq> ''subscription'' then (Normal (), w)
      else
        case forward of
          None \<Rightarrow> (Throw (Error ''No subscription forwarder was set.''), w)
        | Some fwd \<Rightarrow>
            (case normalizeQuery (query op) of
               None \<Rightarrow> (Throw (Error ''A query must be provided.''), w)
             | Some normalizedQuery \<Rightarrow>
                 if normalizedQuery = [] then (Throw (Error ''A query must be provided.''), w)
                 else
                   let (r, w1) = alloc (op\<lparr>query := QueryString normalizedQuery\<rparr>) w;
                       w2 = record_call (Forward r) w1;
                       result = fwd (objects w2 r)
                   in (Normal (), record_call (UseResult result True) w2)))"

text \<open>
  \<^verbatim>\<open>handleSubscriptions\<close> captures the forwarder and returns the handler; it has no
  \<^verbatim>\<open>throw\<close> of its own.
\<close>

definition handleSubscriptions ::
  "('d query \<Rightarrow> string option) \<Rightarrow>
   (('d, 'v, 'm) ClientPluginOperation_scheme \<Rightarrow> 's) option \<Rightarrow>
   ('c ClientPluginContext_scheme \<Rightarrow> ('d, 'v, 'm, 's) world \<Rightarrow>
      unit completion \<times> ('d, 'v, 'm, 's) world) completion" where
  "handleSubscriptions normalizeQuery forwarder =
     (let forward = forwarder in Normal (subscriptionsHandlerPlugin normalizeQuery forward))"

text \<open>Observations of a run from \<open>w\<close> to \<open>w'\<close>: the calls made during it.\<close>

definition new_calls :: "('d, 'v, 'm, 's) world \<Rightarrow> ('d, 'v, 'm, 's) world \<Rightarrow> 's call list" where
  "new_calls w w' = drop (length (calls w)) (calls w')"

definition forward_args ::
  "('d, 'v, 'm, 's) world \<Rightarrow> ('d, 'v, 'm, 's) world \<Rightarrow>
   ('d, 'v, 'm) ClientPluginOperation_scheme list" where
  "forward_args w w' =
     List.map_filter (\<lambda>c. case c of Forward r \<Rightarrow> Some (objects w' r) | UseResult s t \<Rightarrow> None)
       (new_calls w w')"

definition supplied_results ::
  "('d, 'v, 'm, 's) world \<Rightarrow> ('d, 'v, 'm, 's) world \<Rightarrow> ('s \<times> bool) list" where
  "supplied_results w w' =
     List.map_filter (\<lambda>c. case c of Forward r \<Rightarrow> None | UseResult s t \<Rightarrow> Some (s, t))
       (new_calls w w')"

section \<open>Operation fingerprints\<close>

text \<open>
  Modelled from the spec: the fingerprint of an operation (the \<^verbatim>\<open>key\<close> used by the
  cache and for deduplication) is computed by code of \<^verbatim>\<open>packages/shared\<close> and of the
  client, which is not among the sources. The spec (sections 3 and 4.1) gives the
  algorithm: serialise the variables deterministically with lexicographically sorted
  keys, concatenate with the normalised query text, hash. The hash and the printing of
  scalar values are parameters.

  A variable value is a scalar, an array, or an object whose properties are listed in
  insertion order.
\<close>

datatype 'a json = Leaf 'a | Arr "'a json list" | Obj "(string \<times> 'a json) list"

text \<open>An object has each property name once.\<close>

fun well_formed :: "'a json \<Rightarrow> bool" where
  "well_formed (Leaf a) = True"
| "well_formed (Arr xs) = (\<forall>x \<in> set xs. well_formed x)"
| "well_formed (Obj kvs) = (distinct (map fst kvs) \<and> (\<forall>(k, v) \<in> set kvs. well_formed v))"

text \<open>
  Deep equality: scalars are equal, arrays are equal element by element, objects have the
  same property names and deep-equal values under each name, whatever the insertion
  order.
\<close>

fun deep_equal :: "'a json \<Rightarrow> 'a json \<Rightarrow> bool" where
  "deep_equal (Leaf a) (Leaf b) = (a = b)"
| "deep_equal (Arr xs) (Arr ys) = list_all2 deep_equal xs ys"
| "deep_equal (Obj xs) (Obj ys) =
     (set (map fst xs) = set (map fst ys) \<and>
      (\<forall>(k, v) \<in> set xs. \<forall>(k', v') \<in> set ys. k = k' \<longrightarrow> deep_equal v v'))"
| "deep_equal _ _ = False"

text \<open>Canonical key order: the properties of every object sorted by name.\<close>

primrec canonical :: "'a json \<Rightarrow> 'a json" where
  "canonical (Leaf a) = Leaf a"
| "canonical (Arr xs) = Arr (map canonical xs)"
| "canonical (Obj kvs) = Obj (sort_key fst (map (map_prod id canonical) kvs))"

primrec render :: "('a \<Rightarrow> string) \<Rightarrow> 'a json \<Rightarrow> string" where
  "render scalar (Leaf a) = scalar a"
| "render scalar (Arr xs) =
     ''['' @ concat (map (\<lambda>s. s @ '','') (map (render scalar) xs)) @ '']''"
| "render scalar (Obj kvs) =
     ''{'' @ concat (map (\<lambda>(k, s). k @ '':'' @ s @ '','') (map (map_prod id (render scalar)) kvs))
       @ ''}''"

definition serialize :: "('a \<Rightarrow> string) \<Rightarrow> (string \<times> 'a json) list \<Rightarrow> string" where
  "serialize scalar vars = render scalar (canonical (Obj vars))"

text \<open>
  The fingerprint of an operation: the hash of its normalised query text followed by its
  serialised variables. The type, the cache policy and the tags take no part.
\<close>

definition fingerprint ::
  "('d query \<Rightarrow> string option) \<Rightarrow> (string \<Rightarrow> 'h) \<Rightarrow> ('a \<Rightarrow> string) \<Rightarrow>
   ('d, (string \<times> 'a json) list, 'm) ClientPluginOperation_scheme \<Rightarrow> 'h" where
  "fingerprint normalizeQuery hash scalar op =
     hash ((case normalizeQuery (query op) of None \<Rightarrow> [] | Some text \<Rightarrow> text)
           @ serialize scalar (variables op))"

section \<open>Pausing a subscription\<close>

text \<open>
  Modelled from the spec: \<^verbatim>\<open>useSubscription\<close>, the caller of the plugin chain that
  owns the aggregated value, is not among the sources; only its documentation is. The
  spec (sections 4.5, 5 and 8) and the guide say: a reducer folds each incoming message
  with the previous aggregated value, which starts as the absence-of-data value; while
  paused, incoming values are ignored; pausing and resuming do not unsubscribe; after an
  explicit unsubscribe the reducer is not invoked again.
\<close>

datatype 'm subscription_event = Message 'm | Pause | Resume | Unsubscribe

record 'a subscription =
  data :: "'a option"
  paused :: bool
  subscribed :: bool

definition initial_subscription :: "'a subscription" where
  "initial_subscription = \<lparr>data = None, paused = False, subscribed = True\<rparr>"

fun deliver ::
  "('a option \<Rightarrow> 'm \<Rightarrow> 'a option) \<Rightarrow> 'a subscription \<Rightarrow> 'm subscription_event \<Rightarrow>
   'a subscription" where
  "deliver reducer s (Message m) =
     (if subscribed s \<and> \<not> paused s then s\<lparr>data := reducer (data s) m\<rparr> else s)"
| "deliver reducer s Pause = s\<lparr>paused := True\<rparr>"
| "deliver reducer s Resume = s\<lparr>paused := False\<rparr>"
| "deliver reducer s Unsubscribe = s\<lparr>subscribed := False\<rparr>"

definition run_subscription ::
  "('a option \<Rightarrow> 'm \<Rightarrow> 'a option) \<Rightarrow> 'a subscription \<Rightarrow> 'm subscription_event list \<Rightarrow>
   'a subscription" where
  "run_subscription reducer s evs = foldl (deliver reducer) s evs"

section \<open>Sample inputs\<close>

text \<open>
  Concrete inputs on which the handler is run. The stand-in for \<^verbatim>\<open>normalizeQuery\<close>
  returns a string as it is and a document as its printed text; the sample forwarder
  returns what it would hand to the transport, the query and the variables, as in the
  guide's \<^verbatim>\<open>wsClient.subscribe({ query: operation.query, variables: operation.variables }, obs)\<close>.
\<close>

type_synonym sample_variables = "(string \<times> int json) list"

type_synonym sample_operation = "(string, sample_variables) ClientPluginOperation"

type_synonym sample_stream = "string query \<times> sample_variables"

definition sample_normalizeQuery :: "string query \<Rightarrow> string option" where
  "sample_normalizeQuery q = (case q of QueryString s \<Rightarrow> Some s | QueryDocument d \<Rightarrow> Some d)"

definition sample_forwarder :: "sample_operation \<Rightarrow> sample_stream" where
  "sample_forwarder op = (query op, variables op)"

definition new_messages :: sample_operation where
  "new_messages =
     \<lparr>query = QueryDocument ''subscription NewMessages { newMessages { id } }'',
      variables = [(''id'', Leaf 1)], type = ''subscription''\<rparr>"

definition no_query :: sample_operation where
  "no_query = \<lparr>query = QueryString [], variables = [], type = ''subscription''\<rparr>"

definition posts :: sample_operation where
  "posts = \<lparr>query = QueryString [], variables = [], type = ''query''\<rparr>"

text \<open>
  Four objects are allocated: a subscription at 0, a subscription with an empty query at
  1, a query (also with an empty query text) at 2, and at 3 a second object with the same
  properties as the one at 0.
\<close>

definition sample_world :: "(string, sample_variables, unit, sample_stream) world" where
  "sample_world =
     \<lparr>objects = (\<lambda>r. if r = 0 \<or> r = 3 then new_messages else if r = 1 then no_query else posts),
      next_ref = 4, calls = []\<rparr>"

definition sample_reducer :: "nat list option \<Rightarrow> nat \<Rightarrow> nat list option" where
  "sample_reducer old m = Some ((case old of None \<Rightarrow> [] | Some ms \<Rightarrow> ms) @ [m])"

text \<open>
  Two operations for the fingerprint: the same document, once as text and once parsed,
  with deep-equal variables whose properties were inserted in different orders, at the
  top and inside the nested object, and with different types.
\<close>

definition sample_scalar :: "int \<Rightarrow> string" where
  "sample_scalar n = replicate (nat n) CHR ''|''"

definition posts_a :: sample_operation where
  "posts_a =
     \<lparr>query = QueryString ''{ posts { id } }'',
      variables = [(''id'', Leaf 1), (''page'', Obj [(''first'', Leaf 2), (''after'', Arr [Leaf 3])])],
      type = ''query''\<rparr>"

definition posts_b :: sample_operation where
  "posts_b =
     \<lparr>query = QueryDocument ''{ posts { id } }'',
      variables = [(''page'', Obj [(''after'', Arr [Leaf 3]), (''first'', Leaf 2)]), (''id'', Leaf 1)],
      type = ''subscription''\<rparr>"

section \<open>Properties of the handler\<close>

subsection \<open>Auxiliary facts\<close>

text \<open>The run of the handler on a subscription with a forwarder and a non-empty query.\<close>

lemma plugin_forwards:
  assumes "type (objects w (operation ctx)) = ''subscription''"
    and "normalizeQuery (query (objects w (operation ctx))) = Some nq"
    and "nq \<noteq> []"
  shows "subscriptionsHandlerPlugin normalizeQuery (Some fwd) ctx w =
    (Normal (),
     w\<lparr>objects := (objects w)(next_ref w := (objects w (operation ctx))\<lparr>query := QueryString nq\<rparr>),
       next_ref := Suc (next_ref w),
       calls := calls w @ [Forward (next_ref w),
          UseResult (fwd ((objects w (operation ctx))\<lparr>query := QueryString nq\<rparr>)) True]\<rparr>)"
  using assms by (simp add: subscriptionsHandlerPlugin_def alloc_def record_call_def Let_def)

text \<open>Every other run leaves the world as it was.\<close>

lemma plugin_cases:
  "(\<exists>e. subscriptionsHandlerPlugin normalizeQuery forward ctx w = (Throw e, w)) \<or>
   subscriptionsHandlerPlugin normalizeQuery forward ctx w = (Normal (), w) \<or>
   (\<exists>fwd nq. forward = Some fwd \<and> nq \<noteq> [] \<and>
      type (objects w (operation ctx)) = ''subscription'' \<and>
      normalizeQuery (query (objects w (operation ctx))) = Some nq)"
  by (cases forward; cases "normalizeQuery (query (objects w (operation ctx)))")
     (simp_all add: subscriptionsHandlerPlugin_def Let_def)

lemma sample_objects:
  "objects sample_world 0 = new_messages" "objects sample_world (Suc 0) = no_query"
  "objects sample_world 2 = posts" "objects sample_world 3 = new_messages"
  "next_ref sample_world = 4" "calls sample_world = []"
  by (simp_all add: sample_world_def)

lemma sample_fields:
  "type new_messages = ''subscription''" "type no_query = ''subscription''"
  "type posts = ''query''"
  "sample_normalizeQuery (query new_messages) =
     Some ''subscription NewMessages { newMessages { id } }''"
  "sample_normalizeQuery (query no_query) = Some []"
  "sample_normalizeQuery (query posts) = Some []"
  by (simp_all add: new_messages_def no_query_def posts_def sample_normalizeQuery_def)

subsection \<open>Claims\<close>

text \<open>
  C8. For an operation whose type is not \<^verbatim>\<open>'subscription'\<close> the handler returns
  normally and leaves the world as it was: no result is supplied, the forwarder is not
  called, no object is created and nothing is thrown. This holds for every captured
  forwarder, a missing one included, and for every query and every \<^verbatim>\<open>normalizeQuery\<close>.
\<close>

theorem non_subscription_passes:
  "type (objects w (operation ctx)) \<noteq> ''subscription'' \<Longrightarrow>
   subscriptionsHandlerPlugin normalizeQuery forward ctx w = (Normal (), w)"
  by (simp add: subscriptionsHandlerPlugin_def)

text \<open>
  The query at address 2, with an empty query text, dispatched to a handler that has no
  forwarder.
\<close>

theorem non_subscription_passes_witness:
  "type (objects sample_world (operation \<lparr>operation = 2\<rparr>)) \<noteq> ''subscription'' \<and>
   sample_normalizeQuery (query (objects sample_world 2)) = Some [] \<and>
   subscriptionsHandlerPlugin sample_normalizeQuery None \<lparr>operation = 2\<rparr> sample_world =
     (Normal (), sample_world)"
proof -
  have h: "type (objects sample_world (operation \<lparr>operation = 2\<rparr>)) \<noteq> ''subscription''"
    by (simp add: sample_objects sample_fields)
  from non_subscription_passes [OF h, of sample_normalizeQuery None] h
  show ?thesis
    by (simp add: sample_objects sample_fields)
qed

text \<open>
  C1. For a subscription dispatched to a handler that holds a forwarder, with a query that
  is non-empty after normalisation, the handler returns normally and the calls it makes
  are exactly two: the forwarder, on the object created for it, and then
  \<^verbatim>\<open>useResult\<close>, once, with the stream the forwarder returned and the terminate flag
  \<^verbatim>\<open>true\<close>. It makes no other call, so nothing is delegated to a later plugin.
\<close>

theorem subscription_supplies_forwarder_result:
  assumes "type (objects w (operation ctx)) = ''subscription''"
    and "normalizeQuery (query (objects w (operation ctx))) = Some nq"
    and "nq \<noteq> []"
  shows "\<exists>w'. subscriptionsHandlerPlugin normalizeQuery (Some fwd) ctx w = (Normal (), w') \<and>
     new_calls w w' =
       [Forward (next_ref w),
        UseResult (fwd ((objects w (operation ctx))\<lparr>query := QueryString nq\<rparr>)) True] \<and>
     supplied_results w w' =
       [(fwd ((objects w (operation ctx))\<lparr>query := QueryString nq\<rparr>), True)]"
  using assms
  by (simp add: plugin_forwards new_calls_def supplied_results_def)

text \<open>The subscription at address 0, whose query is a document.\<close>

theorem subscription_supplies_forwarder_result_witness:
  "type (objects sample_world (operation \<lparr>operation = 0\<rparr>)) = ''subscription'' \<and>
   (\<exists>w'. subscriptionsHandlerPlugin sample_normalizeQuery (Some sample_forwarder)
            \<lparr>operation = 0\<rparr> sample_world = (Normal (), w') \<and>
      new_calls sample_world w' =
        [Forward 4,
         UseResult (QueryString ''subscription NewMessages { newMessages { id } }'',
                    [(''id'', Leaf 1)]) True] \<and>
      supplied_results sample_world w' =
        [((QueryString ''subscription NewMessages { newMessages { id } }'',
           [(''id'', Leaf 1)]), True)])"
proof -
  have h1: "type (objects sample_world (operation \<lparr>operation = 0\<rparr>)) = ''subscription''"
    by (simp add: sample_objects sample_fields)
  have h2: "sample_normalizeQuery (query (objects sample_world (operation \<lparr>operation = 0\<rparr>))) =
      Some ''subscription NewMessages { newMessages { id } }''"
    by (simp add: sample_objects sample_fields)
  have h3: "''subscription NewMessages { newMessages { id } }'' \<noteq> []"
    by simp
  from subscription_supplies_forwarder_result
    [where w = sample_world and ctx = "\<lparr>operation = 0\<rparr>" and fwd = sample_forwarder
       and normalizeQuery = sample_normalizeQuery, OF h1 h2 h3] h1
  show ?thesis
    by (simp add: sample_objects sample_forwarder_def new_messages_def)
qed

text \<open>
  C2. Building the handler with a missing forwarder returns the handler and throws
  nothing; dispatching a subscription to that handler throws the
  \<^verbatim>\<open>Error\<close> with the message \<^verbatim>\<open>No subscription forwarder was set.\<close> (the spec's
  \<^verbatim>\<open>ConfigurationError\<close>), whatever the query, and leaves the world as it was.
\<close>

theorem missing_forwarder_fails_at_dispatch:
  "\<exists>plugin. handleSubscriptions normalizeQuery None = Normal plugin \<and>
     (type (objects w (operation ctx)) = ''subscription'' \<longrightarrow>
        plugin ctx w = (Throw (Error ''No subscription forwarder was set.''), w))"
  by (simp add: handleSubscriptions_def subscriptionsHandlerPlugin_def)

theorem missing_forwarder_fails_at_dispatch_witness:
  "type (objects sample_world (operation \<lparr>operation = 0\<rparr>)) = ''subscription'' \<and>
   (\<exists>plugin. handleSubscriptions sample_normalizeQuery None = Normal plugin \<and>
      plugin \<lparr>operation = 0\<rparr> sample_world =
        (Throw (Error ''No subscription forwarder was set.''), sample_world))"
proof -
  have h: "type (objects sample_world (operation \<lparr>operation = 0\<rparr>)) = ''subscription''"
    by (simp add: sample_objects sample_fields)
  from missing_forwarder_fails_at_dispatch
    [of sample_normalizeQuery sample_world "\<lparr>operation = 0\<rparr>"] h
  show ?thesis
    by blast
qed

text \<open>
  C3, as amended. For a subscription dispatched to a handler that holds a forwarder, with
  a query that normalises to \<^verbatim>\<open>null\<close> or to the empty string, the handler throws the
  \<^verbatim>\<open>Error\<close> with the message \<^verbatim>\<open>A query must be provided.\<close> (the spec's
  \<^verbatim>\<open>ValidationError\<close>) as the completion of the call itself, and leaves the world as it
  was: the forwarder is not called and no result is supplied.
\<close>

theorem empty_query_rejected:
  assumes "type (objects w (operation ctx)) = ''subscription''"
    and "normalizeQuery (query (objects w (operation ctx))) = None \<or>
         normalizeQuery (query (objects w (operation ctx))) = Some []"
  shows "subscriptionsHandlerPlugin normalizeQuery (Some fwd) ctx w =
     (Throw (Error ''A query must be provided.''), w)"
  using assms by (auto simp add: subscriptionsHandlerPlugin_def)

theorem empty_query_rejected_witness:
  "type (objects sample_world (operation \<lparr>operation = 1\<rparr>)) = ''subscription'' \<and>
   sample_normalizeQuery (query (objects sample_world (operation \<lparr>operation = 1\<rparr>))) = Some [] \<and>
   subscriptionsHandlerPlugin sample_normalizeQuery (Some sample_forwarder)
     \<lparr>operation = 1\<rparr> sample_world =
     (Throw (Error ''A query must be provided.''), sample_world)"
proof -
  have h1: "type (objects sample_world (operation \<lparr>operation = 1\<rparr>)) = ''subscription''"
    by (simp add: sample_objects sample_fields)
  have h2: "sample_normalizeQuery (query (objects sample_world (operation \<lparr>operation = 1\<rparr>))) = None \<or>
      sample_normalizeQuery (query (objects sample_world (operation \<lparr>operation = 1\<rparr>))) = Some []"
    by (simp add: sample_objects sample_fields)
  from empty_query_rejected
    [where w = sample_world and ctx = "\<lparr>operation = 1\<rparr>" and fwd = sample_forwarder
       and normalizeQuery = sample_normalizeQuery, OF h1 h2] h1
  show ?thesis
    by (simp add: sample_objects sample_fields)
qed

text \<open>
  C3 as stated does not hold: it has no condition on the forwarder, and for the
  subscription with the empty query at address 1, dispatched to a handler without a
  forwarder, the error thrown is not the one of the query check.
\<close>

theorem empty_query_without_forwarder_counterexample:
  "type (objects sample_world (operation \<lparr>operation = 1\<rparr>)) = ''subscription'' \<and>
   sample_normalizeQuery (query (objects sample_world (operation \<lparr>operation = 1\<rparr>))) = Some [] \<and>
   fst (subscriptionsHandlerPlugin sample_normalizeQuery None \<lparr>operation = 1\<rparr> sample_world) \<noteq>
     Throw (Error ''A query must be provided.'') \<and>
   fst (subscriptionsHandlerPlugin sample_normalizeQuery None \<lparr>operation = 1\<rparr> sample_world) =
     Throw (Error ''No subscription forwarder was set.'')"
  by (simp add: subscriptionsHandlerPlugin_def sample_objects sample_fields)

text \<open>
  C4. When the handler calls the forwarder, it calls it once, on an operation whose
  \<^verbatim>\<open>query\<close> is the normalised query text and whose other properties, the
  \<^verbatim>\<open>variables\<close>, the \<^verbatim>\<open>type\<close> and all further ones, are those of the dispatched
  operation. That operation is what the forwarder function is applied to: the result
  supplied is the forwarder's value at it.
\<close>

theorem forwarder_receives_normalized_operation:
  assumes "type (objects w (operation ctx)) = ''subscription''"
    and "normalizeQuery (query (objects w (operation ctx))) = Some nq"
    and "nq \<noteq> []"
  shows "\<exists>w' arg. subscriptionsHandlerPlugin normalizeQuery (Some fwd) ctx w = (Normal (), w') \<and>
     forward_args w w' = [arg] \<and>
     supplied_results w w' = [(fwd arg, True)] \<and>
     query arg = QueryString nq \<and>
     variables arg = variables (objects w (operation ctx)) \<and>
     type arg = type (objects w (operation ctx)) \<and>
     ClientPluginOperation.more arg = ClientPluginOperation.more (objects w (operation ctx))"
  using assms
  by (simp add: plugin_forwards new_calls_def forward_args_def supplied_results_def)

theorem forwarder_receives_normalized_operation_witness:
  "type (objects sample_world (operation \<lparr>operation = 0\<rparr>)) = ''subscription'' \<and>
   (\<exists>w' arg. subscriptionsHandlerPlugin sample_normalizeQuery (Some sample_forwarder)
            \<lparr>operation = 0\<rparr> sample_world = (Normal (), w') \<and>
      forward_args sample_world w' = [arg] \<and>
      supplied_results sample_world w' = [(sample_forwarder arg, True)] \<and>
      query arg = QueryString ''subscription NewMessages { newMessages { id } }'' \<and>
      variables arg = [(''id'', Leaf 1)] \<and>
      type arg = ''subscription'')"
proof -
  have h1: "type (objects sample_world (operation \<lparr>operation = 0\<rparr>)) = ''subscription''"
    by (simp add: sample_objects sample_fields)
  have h2: "sample_normalizeQuery (query (objects sample_world (operation \<lparr>operation = 0\<rparr>))) =
      Some ''subscription NewMessages { newMessages { id } }''"
    by (simp add: sample_objects sample_fields)
  have h3: "''subscription NewMessages { newMessages { id } }'' \<noteq> []"
    by simp
  from forwarder_receives_normalized_operation
    [where w = sample_world and ctx = "\<lparr>operation = 0\<rparr>" and fwd = sample_forwarder
       and normalizeQuery = sample_normalizeQuery, OF h1 h2 h3] h1
  show ?thesis
    by (simp add: sample_objects new_messages_def)
qed

text \<open>
  C7. The handler does not write to the dispatched operation: after any run, the object
  the context refers to, and every other object that existed before the run, is what it
  was; the object handed to the forwarder is a new one, at an address that was unused
  before, so it is not the dispatched operation.
\<close>

theorem dispatched_operation_unchanged:
  assumes "operation ctx < next_ref w"
    and "subscriptionsHandlerPlugin normalizeQuery forward ctx w = (res, w')"
  shows "objects w' (operation ctx) = objects w (operation ctx) \<and>
     (\<forall>r. r < next_ref w \<longrightarrow> objects w' r = objects w r) \<and>
     (\<forall>r. Forward r \<in> set (new_calls w w') \<longrightarrow> next_ref w \<le> r \<and> r \<noteq> operation ctx)"
  using assms plugin_cases [of normalizeQuery forward ctx w]
  by (auto simp add: plugin_forwards new_calls_def)

text \<open>
  The subscription at address 0: its query is still the document after the run, and the
  forwarder was called on the new object at address 4.
\<close>

theorem dispatched_operation_unchanged_witness:
  "operation \<lparr>operation = 0\<rparr> < next_ref sample_world \<and>
   objects (snd (subscriptionsHandlerPlugin sample_normalizeQuery (Some sample_forwarder)
       \<lparr>operation = 0\<rparr> sample_world)) 0 = new_messages \<and>
   Forward 4 \<in> set (new_calls sample_world
       (snd (subscriptionsHandlerPlugin sample_normalizeQuery (Some sample_forwarder)
          \<lparr>operation = 0\<rparr> sample_world))) \<and>
   Forward 0 \<notin> set (new_calls sample_world
       (snd (subscriptionsHandlerPlugin sample_normalizeQuery (Some sample_forwarder)
          \<lparr>operation = 0\<rparr> sample_world)))"
proof -
  let ?run = "subscriptionsHandlerPlugin sample_normalizeQuery (Some sample_forwarder)
       \<lparr>operation = 0\<rparr> sample_world"
  have h1: "operation \<lparr>operation = 0\<rparr> < next_ref sample_world"
    by (simp add: sample_objects)
  have h2: "?run = (fst ?run, snd ?run)"
    by simp
  have h3: "Forward 4 \<in> set (new_calls sample_world (snd ?run))"
    by (simp add: plugin_forwards sample_objects sample_fields new_calls_def)
  from dispatched_operation_unchanged [OF h1 h2] h1 h3
  show ?thesis
    by (auto simp add: sample_objects)
qed

text \<open>
  C9. When a subscription is dispatched to a handler without a forwarder and the query
  normalises to \<^verbatim>\<open>null\<close> or to the empty string, the error thrown is the one of the
  forwarder check, \<^verbatim>\<open>No subscription forwarder was set.\<close>: that check comes first.
\<close>

theorem missing_forwarder_checked_first:
  assumes "type (objects w (operation ctx)) = ''subscription''"
    and "normalizeQuery (query (objects w (operation ctx))) = None \<or>
         normalizeQuery (query (objects w (operation ctx))) = Some []"
  shows "subscriptionsHandlerPlugin normalizeQuery None ctx w =
     (Throw (Error ''No subscription forwarder was set.''), w)"
  using assms by (auto simp add: subscriptionsHandlerPlugin_def)

theorem missing_forwarder_checked_first_witness:
  "type (objects sample_world (operation \<lparr>operation = 1\<rparr>)) = ''subscription'' \<and>
   sample_normalizeQuery (query (objects sample_world (operation \<lparr>operation = 1\<rparr>))) = Some [] \<and>
   subscriptionsHandlerPlugin sample_normalizeQuery None \<lparr>operation = 1\<rparr> sample_world =
     (Throw (Error ''No subscription forwarder was set.''), sample_world)"
proof -
  have h1: "type (objects sample_world (operation \<lparr>operation = 1\<rparr>)) = ''subscription''"
    by (simp add: sample_objects sample_fields)
  have h2: "sample_normalizeQuery (query (objects sample_world (operation \<lparr>operation = 1\<rparr>))) = None \<or>
      sample_normalizeQuery (query (objects sample_world (operation \<lparr>operation = 1\<rparr>))) = Some []"
    by (simp add: sample_objects sample_fields)
  from missing_forwarder_checked_first
    [where w = sample_world and ctx = "\<lparr>operation = 1\<rparr>"
       and normalizeQuery = sample_normalizeQuery, OF h1 h2] h1
  show ?thesis
    by (simp add: sample_objects sample_fields)
qed

text \<open>
  C10. The handler's behaviour depends only on the captured forwarder and on the
  properties of the dispatched operation. Two runs with the same forwarder, from any two
  worlds and contexts in which the dispatched operations have equal properties, either
  both throw the same error and make no call, or both return, with equal operations
  handed to the forwarder and equal results supplied; for a subscription that returns,
  the forwarder is called once. (When the type is not \<^verbatim>\<open>'subscription'\<close> both runs
  return and the forwarder is called in neither.)
\<close>

theorem handler_deterministic:
  assumes "objects w1 (operation c1) = objects w2 (operation c2)"
    and "subscriptionsHandlerPlugin normalizeQuery forward c1 w1 = (res1, w1')"
    and "subscriptionsHandlerPlugin normalizeQuery forward c2 w2 = (res2, w2')"
  shows "(\<exists>e. res1 = Throw e \<and> res2 = Throw e \<and>
            new_calls w1 w1' = [] \<and> new_calls w2 w2' = []) \<or>
         (res1 = Normal () \<and> res2 = Normal () \<and>
          forward_args w1 w1' = forward_args w2 w2' \<and>
          supplied_results w1 w1' = supplied_results w2 w2' \<and>
          (type (objects w1 (operation c1)) = ''subscription'' \<longrightarrow>
             length (forward_args w1 w1') = 1))"
proof -
  let ?op = "objects w1 (operation c1)"
  show ?thesis
  proof (cases "type ?op = ''subscription''")
    case False
    with assms show ?thesis
      by (auto simp add: subscriptionsHandlerPlugin_def new_calls_def forward_args_def
          supplied_results_def)
  next
    case sub: True
    show ?thesis
    proof (cases forward)
      case None
      with sub assms show ?thesis
        by (auto simp add: subscriptionsHandlerPlugin_def new_calls_def)
    next
      case (Some fwd)
      show ?thesis
      proof (cases "normalizeQuery (query ?op) = None \<or> normalizeQuery (query ?op) = Some []")
        case True
        with sub Some assms show ?thesis
          by (auto simp add: subscriptionsHandlerPlugin_def new_calls_def)
      next
        case False
        then obtain nq where nq: "normalizeQuery (query ?op) = Some nq" "nq \<noteq> []"
          by auto
        from sub nq assms(1) have
          "subscriptionsHandlerPlugin normalizeQuery (Some fwd) c1 w1 = (res1, w1') \<Longrightarrow>
           subscriptionsHandlerPlugin normalizeQuery (Some fwd) c2 w2 = (res2, w2') \<Longrightarrow> ?thesis"
          by (auto simp add: plugin_forwards new_calls_def forward_args_def
              supplied_results_def)
        with Some assms show ?thesis by simp
      qed
    qed
  qed
qed

text \<open>
  The two subscriptions at addresses 0 and 3 have equal properties; the second run starts
  from the world the first one left.
\<close>

theorem handler_deterministic_witness:
  "objects sample_world (operation \<lparr>operation = 0\<rparr>) =
     objects (snd (subscriptionsHandlerPlugin sample_normalizeQuery (Some sample_forwarder)
       \<lparr>operation = 0\<rparr> sample_world)) (operation \<lparr>operation = 3\<rparr>) \<and>
   fst (subscriptionsHandlerPlugin sample_normalizeQuery (Some sample_forwarder)
       \<lparr>operation = 0\<rparr> sample_world) =
   fst (subscriptionsHandlerPlugin sample_normalizeQuery (Some sample_forwarder)
       \<lparr>operation = 3\<rparr>
       (snd (subscriptionsHandlerPlugin sample_normalizeQuery (Some sample_forwarder)
          \<lparr>operation = 0\<rparr> sample_world))) \<and>
   forward_args sample_world
     (snd (subscriptionsHandlerPlugin sample_normalizeQuery (Some sample_forwarder)
        \<lparr>operation = 0\<rparr> sample_world)) =
   forward_args
     (snd (subscriptionsHandlerPlugin sample_normalizeQuery (Some sample_forwarder)
        \<lparr>operation = 0\<rparr> sample_world))
     (snd (subscriptionsHandlerPlugin sample_normalizeQuery (Some sample_forwarder)
        \<lparr>operation = 3\<rparr>
        (snd (subscriptionsHandlerPlugin sample_normalizeQuery (Some sample_forwarder)
           \<lparr>operation = 0\<rparr> sample_world))))"
proof -
  let ?run1 = "subscriptionsHandlerPlugin sample_normalizeQuery (Some sample_forwarder)
       \<lparr>operation = 0\<rparr> sample_world"
  let ?run2 = "subscriptionsHandlerPlugin sample_normalizeQuery (Some sample_forwarder)
       \<lparr>operation = 3\<rparr> (snd ?run1)"
  have run1: "?run1 = (Normal (),
      sample_world\<lparr>objects := (objects sample_world)
          (4 := new_messages\<lparr>query := QueryString ''subscription NewMessages { newMessages { id } }''\<rparr>),
        next_ref := 5,
        calls := [Forward 4,
          UseResult (sample_forwarder
            (new_messages\<lparr>query := QueryString ''subscription NewMessages { newMessages { id } }''\<rparr>))
            True]\<rparr>)"
    by (simp add: plugin_forwards sample_objects sample_fields)
  have h1: "objects sample_world (operation \<lparr>operation = 0\<rparr>) =
      objects (snd ?run1) (operation \<lparr>operation = 3\<rparr>)"
    by (simp add: run1 sample_objects)
  have h2: "?run1 = (fst ?run1, snd ?run1)" and h3: "?run2 = (fst ?run2, snd ?run2)"
    by simp_all
  have h4: "fst ?run1 = Normal ()"
    by (simp add: run1)
  from handler_deterministic [OF h1 h2 h3] h1 h4
  show ?thesis
    by auto
qed

section \<open>Properties of the fingerprint\<close>

subsection \<open>Auxiliary facts\<close>

text \<open>
  Two association lists with distinct keys that denote the same mapping are equal once
  sorted by key.
\<close>

lemma sort_key_fst_unique:
  fixes xs ys :: "('k::linorder \<times> 'v) list"
  assumes dx: "distinct (map fst xs)" and dy: "distinct (map fst ys)"
    and eq: "map_of xs = map_of ys"
  shows "sort_key fst xs = sort_key fst ys"
proof -
  let ?xs = "sort_key fst xs" and ?ys = "sort_key fst ys"
  from dx dy eq have sets: "set xs = set ys"
    by (simp add: map_of_inject_set)
  from dx have inj: "inj_on fst (set xs)" and "distinct xs"
    by (simp_all add: distinct_map)
  from dy have "distinct ys"
    by (simp add: distinct_map)
  have "distinct (map fst ?xs)"
    using inj \<open>distinct xs\<close> by (simp add: distinct_map)
  moreover have "distinct (map fst ?ys)"
    using inj sets \<open>distinct ys\<close> by (simp add: distinct_map)
  moreover have "set (map fst ?xs) = set (map fst ?ys)"
    using sets by simp
  ultimately have "map fst ?xs = map fst ?ys"
    by (intro sorted_distinct_set_unique) simp_all
  moreover have "inj_on fst (set ?xs \<union> set ?ys)"
    using inj sets by simp
  ultimately show ?thesis
    by (simp add: inj_on_map_eq_map)
qed

text \<open>Deep-equal values have the same canonical form.\<close>

lemma deep_equal_canonical:
  "well_formed a \<Longrightarrow> well_formed b \<Longrightarrow> deep_equal a b \<Longrightarrow> canonical a = canonical b"
proof (induction a arbitrary: b)
  case (Leaf x)
  then show ?case by (cases b) simp_all
next
  case (Arr xs)
  from Arr.prems(3) obtain ys where b: "b = Arr ys"
    by (cases b) simp_all
  with Arr.prems have "list_all2 deep_equal xs ys"
    and wf: "\<forall>x \<in> set xs. well_formed x" "\<forall>y \<in> set ys. well_formed y"
    by simp_all
  then have "map canonical xs = map canonical ys"
    using Arr.IH
  proof (induction xs ys rule: list_all2_induct)
    case Nil
    then show ?case by simp
  next
    case (Cons x xs y ys)
    then show ?case by simp
  qed
  with b show ?case by simp
next
  case (Obj xs)
  from Obj.prems(3) obtain ys where b: "b = Obj ys"
    by (cases b) simp_all
  let ?c = "map_prod id canonical :: string \<times> 'a json \<Rightarrow> string \<times> 'a json"
  from Obj.prems b have dx: "distinct (map fst xs)" and dy: "distinct (map fst ys)"
    and wx: "\<And>k v. (k, v) \<in> set xs \<Longrightarrow> well_formed v"
    and wy: "\<And>k v. (k, v) \<in> set ys \<Longrightarrow> well_formed v"
    and keys: "set (map fst xs) = set (map fst ys)"
    and vals: "\<And>k v v'. (k, v) \<in> set xs \<Longrightarrow> (k, v') \<in> set ys \<Longrightarrow> deep_equal v v'"
    by auto
  have "map_of (map ?c xs) k = map_of (map ?c ys) k" for k
  proof (cases "map_of xs k")
    case None
    then have "k \<notin> set (map fst xs)"
      by (simp add: map_of_eq_None_iff)
    with keys have "map_of ys k = None"
      by (simp add: map_of_eq_None_iff)
    with None show ?thesis
      by (simp add: map_prod_def map_of_map)
  next
    case (Some v)
    then have inx: "(k, v) \<in> set xs"
      by (rule map_of_SomeD)
    then have "k \<in> set (map fst ys)"
      using keys by force
    then obtain v' where iny: "(k, v') \<in> set ys"
      by auto
    with dy have Some': "map_of ys k = Some v'"
      by simp
    have "canonical v = canonical v'"
      using inx iny by (intro Obj.IH[of "(k, v)" v]) (auto intro: wx wy vals)
    with Some Some' show ?thesis
      by (simp add: map_prod_def map_of_map)
  qed
  then have "map_of (map ?c xs) = map_of (map ?c ys)"
    by (rule ext)
  moreover have "distinct (map fst (map ?c xs))" "distinct (map fst (map ?c ys))"
    using dx dy by (simp_all add: comp_def)
  ultimately have "sort_key fst (map ?c xs) = sort_key fst (map ?c ys)"
    by (intro sort_key_fst_unique)
  with b show ?case by simp
qed

subsection \<open>Claims\<close>

text \<open>
  C5. Two operations with equal normalised query text and deep-equal variables have equal
  fingerprints, whatever the insertion order of the properties of the variables, at the
  top level and in nested objects, and whatever their other properties.
\<close>

theorem fingerprint_order_independent:
  assumes "normalizeQuery (query op1) = normalizeQuery (query op2)"
    and "well_formed (Obj (variables op1))"
    and "well_formed (Obj (variables op2))"
    and "deep_equal (Obj (variables op1)) (Obj (variables op2))"
  shows "fingerprint normalizeQuery hash scalar op1 = fingerprint normalizeQuery hash scalar op2"
proof -
  from assms(2-4) have "canonical (Obj (variables op1)) = canonical (Obj (variables op2))"
    by (rule deep_equal_canonical)
  with assms(1) show ?thesis
    by (simp only: fingerprint_def serialize_def)
qed

theorem fingerprint_order_independent_witness:
  "variables posts_a \<noteq> variables posts_b \<and>
   deep_equal (Obj (variables posts_a)) (Obj (variables posts_b)) \<and>
   fingerprint sample_normalizeQuery length sample_scalar posts_a =
   fingerprint sample_normalizeQuery length sample_scalar posts_b"
proof -
  have h1: "sample_normalizeQuery (query posts_a) = sample_normalizeQuery (query posts_b)"
    by (simp add: posts_a_def posts_b_def sample_normalizeQuery_def)
  have h2: "well_formed (Obj (variables posts_a))"
    by (simp add: posts_a_def)
  have h3: "well_formed (Obj (variables posts_b))"
    by (simp add: posts_b_def)
  have h4: "deep_equal (Obj (variables posts_a)) (Obj (variables posts_b))"
    by (simp add: posts_a_def posts_b_def insert_commute)
  have h5: "variables posts_a \<noteq> variables posts_b"
    by (simp add: posts_a_def posts_b_def)
  from fingerprint_order_independent [OF h1 h2 h3 h4, of length sample_scalar] h4 h5
  show ?thesis
    by simp
qed

section \<open>Properties of pausing\<close>

subsection \<open>Auxiliary facts\<close>

lemma run_paused:
  "paused s \<Longrightarrow> run_subscription reducer s (map Message ms) = s"
  by (induction ms) (simp_all add: run_subscription_def)

lemma run_active:
  "subscribed s \<Longrightarrow> \<not> paused s \<Longrightarrow>
   run_subscription reducer s (map Message ms) = s\<lparr>data := foldl reducer (data s) ms\<rparr>"
  by (induction ms arbitrary: s) (simp_all add: run_subscription_def)

lemma run_keeps_subscribed:
  "Unsubscribe \<notin> set evs \<Longrightarrow> subscribed (run_subscription reducer s evs) = subscribed s"
proof (induction evs arbitrary: s)
  case Nil
  then show ?case by (simp add: run_subscription_def)
next
  case (Cons ev evs)
  from Cons.prems have "ev \<noteq> Unsubscribe" and rest: "Unsubscribe \<notin> set evs"
    by auto
  then have "subscribed (deliver reducer s ev) = subscribed s"
    by (cases ev) simp_all
  with Cons.IH [OF rest, of "deliver reducer s ev"] show ?case
    by (simp add: run_subscription_def)
qed

subsection \<open>Claims\<close>

text \<open>
  C6. While a subscription is paused, any sequence of incoming messages leaves the
  aggregated value as it was; after a resume, the messages that follow are folded into it
  by the reducer, in arrival order; and a run of events without an explicit unsubscribe,
  whatever pauses, resumes and messages it holds, leaves the underlying stream
  subscribed.
\<close>

theorem pause_discards_messages:
  "(paused s \<longrightarrow> data (run_subscription reducer s (map Message ms)) = data s) \<and>
   (subscribed s \<longrightarrow>
      data (run_subscription reducer (deliver reducer s Resume) (map Message ms)) =
        foldl reducer (data s) ms) \<and>
   (Unsubscribe \<notin> set evs \<longrightarrow>
      subscribed (run_subscription reducer s evs) = subscribed s)"
  by (simp add: run_paused run_active run_keeps_subscribed)

text \<open>
  A subscription that received 10 and was then paused: 20 and 30 are discarded while it is
  paused and folded in when they arrive after a resume; the stream stays subscribed
  throughout.
\<close>

theorem pause_discards_messages_witness:
  "paused (run_subscription sample_reducer initial_subscription [Message 10, Pause]) \<and>
   data (run_subscription sample_reducer
     (run_subscription sample_reducer initial_subscription [Message 10, Pause])
     (map Message [20, 30])) = Some [10] \<and>
   data (run_subscription sample_reducer
     (deliver sample_reducer
        (run_subscription sample_reducer initial_subscription [Message 10, Pause]) Resume)
     (map Message [20, 30])) = Some [10, 20, 30] \<and>
   subscribed (run_subscription sample_reducer
     (run_subscription sample_reducer initial_subscription [Message 10, Pause])
     [Message 20, Pause, Message 30, Resume, Message 40])"
proof -
  let ?s = "run_subscription sample_reducer initial_subscription [Message 10, Pause]"
  have s: "?s = \<lparr>data = Some [10], paused = True, subscribed = True\<rparr>"
    by (simp add: run_subscription_def initial_subscription_def sample_reducer_def)
  have h1: "paused ?s" and h2: "subscribed ?s"
    by (simp_all add: s)
  have h3: "Unsubscribe \<notin> set [Message 20, Pause, Message (30::nat), Resume, Message 40]"
    by simp
  from pause_discards_messages
    [of ?s sample_reducer "[20, 30]" "[Message 20, Pause, Message 30, Resume, Message 40]"]
    h1 h2 h3
  show ?thesis
    by (simp add: s sample_reducer_def)
qed

end
